theory Spec2Isabelle
  imports Main
begin

section \<open>The tracing provider, as seen from package otelwrap\<close>

text \<open>
  Package \<open>otelwrap\<close> (one file, \<open>otelwrap.go\<close>) is a thin layer over the OpenTelemetry
  client library. The library is not part of the package, so it appears here only through
  the calls the package makes on it. Every call on the tracer or on a provider span is
  appended to a log, the state that the package's functions pass along; "the package
  touched a provider resource" means "the log grew".

  Contexts (\<open>context.Context\<close>), provider spans (non-nil values of the interface
  \<open>trace.Span\<close>) and Go errors are opaque: they are the type variables \<open>'ctx\<close>, \<open>'ps\<close>
  and \<open>'err\<close>.
\<close>

datatype SpanKind =
    SpanKindInternal
  | SpanKindServer
  | SpanKindClient
  | SpanKindProducer
  | SpanKindConsumer

datatype ('ctx, 'ps, 'err) provider_call =
    Tracer_Start 'ctx string SpanKind
  | Otel_SetAttributes 'ps "(string \<times> string) list"
  | Otel_AddEvent 'ps string
  | Otel_End 'ps
  | Otel_RecordError 'ps 'err

type_synonym ('ctx, 'ps, 'err) log = "('ctx, 'ps, 'err) provider_call list"

text \<open>
  What the package takes from outside itself, as parameters:
  \<^item> \<open>import_path\<close> and \<open>source_file\<close>: the import path and the file path under which the
    package was compiled; the Go runtime reports them for the package's own stack frames;
  \<^item> \<open>quote_non_ascii\<close>: what \<^verbatim>\<open>fmt.Sprintf("%q", s)\<close> puts between the two double
    quotes when \<open>s\<close> holds a byte above 127 (the outcome then rests on UTF-8 decoding
    and on the Unicode tables of package \<open>strconv\<close>);
  \<^item> \<open>provider_Start\<close>: what \<^verbatim>\<open>provider.Start(ctx, name, trace.WithSpanKind(kind))\<close>
    returns, which may depend on everything the provider has been asked before;
  \<^item> \<open>trace_SpanFromContext\<close>: \<^verbatim>\<open>trace.SpanFromContext(ctx)\<close>;
  \<^item> \<open>propagator_Inject\<close>: the \<open>Set(key, value)\<close> calls, in order, that the global
    propagator's \<open>Inject\<close> makes on the carrier for a context;
  \<^item> \<open>propagator_Extract\<close>: the context that the propagator's \<open>Extract\<close> returns for a
    base context, given what the carrier's \<open>Get\<close> answers and what its \<open>Keys\<close> lists.
\<close>

record ('ctx, 'ps, 'err) env =
  import_path :: string
  source_file :: string
  quote_non_ascii :: "string \<Rightarrow> string"
  provider_Start :: "('ctx, 'ps, 'err) log \<Rightarrow> 'ctx \<Rightarrow> string \<Rightarrow> SpanKind \<Rightarrow> 'ctx \<times> 'ps"
  trace_SpanFromContext :: "'ctx \<Rightarrow> 'ps"
  propagator_Inject :: "'ctx \<Rightarrow> (string \<times> string) list"
  propagator_Extract :: "'ctx \<Rightarrow> (string \<Rightarrow> string) \<Rightarrow> string list \<Rightarrow> 'ctx"

text \<open>The run-time panics of Go that the package's code can meet.\<close>

datatype panic =
    NilDereference
  | IndexOutOfRange
  | NilMapAssignment

section \<open>Span handles\<close>

text \<open>
  \<^verbatim>\<open>type Span struct { noop bool; span trace.Span }\<close>
  The field \<open>span\<close> holds an interface value, \<open>None\<close> being the nil interface. The
  package hands out pointers \<open>*Span\<close>; a pointer is an option, \<open>None\<close> being nil.
\<close>

record 'ps Span =
  noop :: bool
  span :: "'ps option"

text \<open>\<^verbatim>\<open>var noopSpan = &Span{noop: true}\<close>\<close>

definition noopSpan :: "'ps Span option" where
  "noopSpan = Some \<lparr>noop = True, span = None\<rparr>"

text \<open>\<^verbatim>\<open>func newSpan(span trace.Span) *Span { return &Span{span: span} }\<close>\<close>

definition newSpan :: "'ps \<Rightarrow> 'ps Span option" where
  "newSpan sp = Some \<lparr>noop = False, span = Some sp\<rparr>"

text \<open>\<^verbatim>\<open>func SpanFromContext(ctx) *Span { return newSpan(trace.SpanFromContext(ctx)) }\<close>\<close>

definition SpanFromContext :: "('ctx, 'ps, 'err) env \<Rightarrow> 'ctx \<Rightarrow> 'ps Span option" where
  "SpanFromContext env ctx = newSpan (trace_SpanFromContext env ctx)"

text \<open>
  The three methods have one shape: return at once on a no-op handle, otherwise forward
  to the provider span. Reading \<open>s.noop\<close> through a nil pointer and calling a method on a
  nil interface both panic.
\<close>

definition AddEvent ::
  "'ps Span option \<Rightarrow> string \<Rightarrow> ('ctx, 'ps, 'err) log \<Rightarrow> panic + ('ctx, 'ps, 'err) log" where
  "AddEvent s name w =
     (case s of
        None \<Rightarrow> Inl NilDereference
      | Some h \<Rightarrow>
          if noop h then Inr w
          else (case span h of
                  None \<Rightarrow> Inl NilDereference
                | Some p \<Rightarrow> Inr (w @ [Otel_AddEvent p name])))"

definition End ::
  "'ps Span option \<Rightarrow> ('ctx, 'ps, 'err) log \<Rightarrow> panic + ('ctx, 'ps, 'err) log" where
  "End s w =
     (case s of
        None \<Rightarrow> Inl NilDereference
      | Some h \<Rightarrow>
          if noop h then Inr w
          else (case span h of
                  None \<Rightarrow> Inl NilDereference
                | Some p \<Rightarrow> Inr (w @ [Otel_End p])))"

definition RecordError ::
  "'ps Span option \<Rightarrow> 'err \<Rightarrow> ('ctx, 'ps, 'err) log \<Rightarrow> panic + ('ctx, 'ps, 'err) log" where
  "RecordError s err w =
     (case s of
        None \<Rightarrow> Inl NilDereference
      | Some h \<Rightarrow>
          if noop h then Inr w
          else (case span h of
                  None \<Rightarrow> Inl NilDereference
                | Some p \<Rightarrow> Inr (w @ [Otel_RecordError p err])))"

text \<open>
  A caller's sequence of method calls on one handle. A panic ends the sequence, as it
  unwinds the goroutine.
\<close>

datatype 'err span_op =
    Op_AddEvent string
  | Op_RecordError 'err
  | Op_End

fun apply_span_op ::
  "'ps Span option \<Rightarrow> 'err span_op \<Rightarrow> ('ctx, 'ps, 'err) log \<Rightarrow> panic + ('ctx, 'ps, 'err) log" where
  "apply_span_op s (Op_AddEvent name) w = AddEvent s name w"
| "apply_span_op s (Op_RecordError err) w = RecordError s err w"
| "apply_span_op s Op_End w = End s w"

fun run_span_ops ::
  "'ps Span option \<Rightarrow> 'err span_op list \<Rightarrow> ('ctx, 'ps, 'err) log \<Rightarrow> panic + ('ctx, 'ps, 'err) log" where
  "run_span_ops s [] w = Inr w"
| "run_span_ops s (c # cs) w =
     (case apply_span_op s c w of
        Inl e \<Rightarrow> Inl e
      | Inr w' \<Rightarrow> run_span_ops s cs w')"

section \<open>The call-site inspector\<close>

text \<open>
  Go's call stack is implicit; \<open>runtime.Caller\<close> reads it. Here every function of the
  package that (directly or not) reaches \<open>runtime.Caller\<close> takes the stack as an
  argument: the frames of its callers, innermost first, each with the line where its
  call is pending. A function that calls another one pushes its own frame.

  A frame carries what the package asks of it: the file and line that \<open>runtime.Caller\<close>
  reports, and the name that \<open>runtime.FuncForPC(pc).Name()\<close> reports for its program
  counter (the empty string when \<open>FuncForPC\<close> finds no function: \<open>Name\<close> on a nil
  \<open>*Func\<close> returns \<^verbatim>\<open>""\<close>).
\<close>

record frame =
  fr_func :: string
  fr_file :: string
  fr_line :: int

text \<open>The frame of one of the package's own functions, stopped at a line of \<open>otelwrap.go\<close>.\<close>

definition own_frame :: "('ctx, 'ps, 'err) env \<Rightarrow> string \<Rightarrow> int \<Rightarrow> frame" where
  "own_frame env f l =
     \<lparr>fr_func = import_path env @ ''.'' @ f, fr_file = source_file env, fr_line = l\<rparr>"

text \<open>
  \<open>runtime.Caller(skip)\<close>, on the stack whose head is the function calling it: skip 0 is
  that function, and \<open>ok\<close> is false (\<open>None\<close>) past the end of the stack. The skip count
  is a natural number: the package passes the literal 3 only.
\<close>

definition runtime_Caller :: "frame list \<Rightarrow> nat \<Rightarrow> frame option" where
  "runtime_Caller stk skip = (if skip < length stk then Some (stk ! skip) else None)"

text \<open>
  \<open>strings.Split(s, sep)\<close> for a separator of one byte, the only kind the package
  passes: the pieces of \<open>s\<close> between separators, always at least one piece.
\<close>

fun strings_Split :: "string \<Rightarrow> char \<Rightarrow> string list" where
  "strings_Split [] sep = [[]]"
| "strings_Split (c # cs) sep =
     (if c = sep then [] # strings_Split cs sep
      else (case strings_Split cs sep of
              [] \<Rightarrow> [[c]]
            | p # ps \<Rightarrow> (c # p) # ps))"

text \<open>A slice index expression \<open>xs[i]\<close>, with Go's bounds check.\<close>

definition at_index :: "'a list \<Rightarrow> int \<Rightarrow> panic + 'a" where
  "at_index xs i =
     (if 0 \<le> i \<and> i < int (length xs) then Inr (xs ! nat i) else Inl IndexOutOfRange)"

record callerInfo =
  File :: string
  Line :: int
  Func :: string

text \<open>
  \<^verbatim>\<open>
  func caller(n int) callerInfo {
      pc, file, line, ok := runtime.Caller(n)
      if !ok { return callerInfo{File: "unknown", Func: "unknown"} }
      fn := runtime.FuncForPC(pc)
      parts := strings.Split(fn.Name(), "/")
      return callerInfo{File: file, Line: line, Func: parts[len(parts)-1]}
  }
  \<close>
  The call of \<open>runtime.Caller\<close> is on line 124.
\<close>

definition caller :: "('ctx, 'ps, 'err) env \<Rightarrow> frame list \<Rightarrow> nat \<Rightarrow> panic + callerInfo" where
  "caller env stk n =
     (case runtime_Caller (own_frame env ''caller'' 124 # stk) n of
        None \<Rightarrow> Inr \<lparr>File = ''unknown'', Line = 0, Func = ''unknown''\<rparr>
      | Some fr \<Rightarrow>
          (let parts = strings_Split (fr_func fr) CHR ''/''
           in case at_index parts (int (length parts) - 1) of
                Inl e \<Rightarrow> Inl e
              | Inr f \<Rightarrow> Inr \<lparr>File = fr_file fr, Line = fr_line fr, Func = f\<rparr>))"

section \<open>The span starters\<close>

text \<open>\<open>strings.Join(elems, sep)\<close>.\<close>

fun strings_Join :: "string list \<Rightarrow> string \<Rightarrow> string" where
  "strings_Join [] sep = []"
| "strings_Join [x] sep = x"
| "strings_Join (x # y # ys) sep = x @ sep @ strings_Join (y # ys) sep"

text \<open>\<^verbatim>\<open>fmt.Sprintf("%d", i)\<close>: the decimal digits of \<open>i\<close>, after a minus sign if negative.\<close>

definition digit :: "nat \<Rightarrow> char" where
  "digit d = char_of (48 + d)"

function decimal :: "nat \<Rightarrow> string" where
  "decimal n = (if n < 10 then [digit n] else decimal (n div 10) @ [digit (n mod 10)])"
  by pat_completeness auto
termination
  by (relation "measure id") auto

declare decimal.simps [simp del]

definition Sprintf_d :: "int \<Rightarrow> string" where
  "Sprintf_d i = (if i < 0 then CHR ''-'' # decimal (nat (- i)) else decimal (nat i))"

text \<open>
  \<^verbatim>\<open>fmt.Sprintf("%q", s)\<close> is \<open>strconv.Quote(s)\<close>: a double quote, the escaped runes of
  \<open>s\<close>, a double quote. An ASCII rune is escaped on its own: the double quote and the
  backslash get a backslash in front, the printable ones (32 to 126) stand for
  themselves, seven control characters have a letter escape, and the other ones are
  written as a backslash, the letter \<open>x\<close> and two lower-case hexadecimal digits.
\<close>

definition lowerhex :: "nat \<Rightarrow> char" where
  "lowerhex d = (if d < 10 then char_of (48 + d) else char_of (87 + d))"

definition escape_ascii :: "char \<Rightarrow> string" where
  "escape_ascii c =
     (let r = (of_char c :: nat) in
      if c = CHR 0x22 \<or> c = CHR 0x5C then [CHR 0x5C, c]
      else if 32 \<le> r \<and> r \<le> 126 then [c]
      else if r = 7 then [CHR 0x5C, CHR ''a'']
      else if r = 8 then [CHR 0x5C, CHR ''b'']
      else if r = 12 then [CHR 0x5C, CHR ''f'']
      else if r = 10 then [CHR 0x5C, CHR ''n'']
      else if r = 13 then [CHR 0x5C, CHR ''r'']
      else if r = 9 then [CHR 0x5C, CHR ''t'']
      else if r = 11 then [CHR 0x5C, CHR ''v'']
      else [CHR 0x5C, CHR ''x'', lowerhex (r div 16), lowerhex (r mod 16)])"

definition Sprintf_q :: "('ctx, 'ps, 'err) env \<Rightarrow> string \<Rightarrow> string" where
  "Sprintf_q env s =
     CHR 0x22 #
       (if list_all (\<lambda>c. (of_char c :: nat) < 128) s then concat (map escape_ascii s)
        else quote_non_ascii env s)
       @ [CHR 0x22]"

text \<open>
  The loop of \<open>start\<close>:
  \<^verbatim>\<open>for _, param := range params { parts = append(parts, fmt.Sprintf("%q", param)) }\<close>
\<close>

fun quote_params :: "('ctx, 'ps, 'err) env \<Rightarrow> string list \<Rightarrow> string list \<Rightarrow> string list" where
  "quote_params env [] parts = parts"
| "quote_params env (param # params) parts = quote_params env params (parts @ [Sprintf_q env param])"

text \<open>
  \<^verbatim>\<open>
  func start(ctx, kind, params ...string) (context.Context, *Span) {
      info := caller(3)
      var parts []string
      for _, param := range params { ... }
      name := fmt.Sprintf("%s(%s)", info.Func, strings.Join(parts, ", "))
      ctx, span := provider.Start(ctx, name, trace.WithSpanKind(kind))
      span.SetAttributes(attribute.KeyValue{
          Key: "file", Value: attribute.StringValue(fmt.Sprintf("%s:%d", info.File, info.Line))})
      return ctx, newSpan(span)
  }
  \<close>
  The call of \<open>caller\<close> is on line 103.
\<close>

definition start ::
  "('ctx, 'ps, 'err) env \<Rightarrow> frame list \<Rightarrow> 'ctx \<Rightarrow> SpanKind \<Rightarrow> string list \<Rightarrow> ('ctx, 'ps, 'err) log
     \<Rightarrow> panic + (('ctx \<times> 'ps Span option) \<times> ('ctx, 'ps, 'err) log)" where
  "start env stk ctx kind params w =
     (case caller env (own_frame env ''start'' 103 # stk) 3 of
        Inl e \<Rightarrow> Inl e
      | Inr info \<Rightarrow>
          (let parts = quote_params env params [];
               name = Func info @ ''('' @ strings_Join parts '', '' @ '')'';
               (ctx', sp) = provider_Start env w ctx name kind;
               w1 = w @ [Tracer_Start ctx name kind];
               w2 = w1 @ [Otel_SetAttributes sp
                            [(''file'', File info @ '':'' @ Sprintf_d (Line info))]]
           in Inr ((ctx', newSpan sp), w2)))"

text \<open>The five entry points; their calls of \<open>start\<close> are on lines 76, 81, 87, 93 and 99.\<close>

definition StartInternal ::
  "('ctx, 'ps, 'err) env \<Rightarrow> frame list \<Rightarrow> 'ctx \<Rightarrow> string list \<Rightarrow> ('ctx, 'ps, 'err) log
     \<Rightarrow> panic + (('ctx \<times> 'ps Span option) \<times> ('ctx, 'ps, 'err) log)" where
  "StartInternal env stk ctx params w =
     start env (own_frame env ''StartInternal'' 76 # stk) ctx SpanKindInternal params w"

definition StartClient ::
  "('ctx, 'ps, 'err) env \<Rightarrow> frame list \<Rightarrow> 'ctx \<Rightarrow> string list \<Rightarrow> ('ctx, 'ps, 'err) log
     \<Rightarrow> panic + (('ctx \<times> 'ps Span option) \<times> ('ctx, 'ps, 'err) log)" where
  "StartClient env stk ctx params w =
     start env (own_frame env ''StartClient'' 81 # stk) ctx SpanKindClient params w"

definition StartConsumer ::
  "('ctx, 'ps, 'err) env \<Rightarrow> frame list \<Rightarrow> 'ctx \<Rightarrow> string list \<Rightarrow> ('ctx, 'ps, 'err) log
     \<Rightarrow> panic + (('ctx \<times> 'ps Span option) \<times> ('ctx, 'ps, 'err) log)" where
  "StartConsumer env stk ctx params w =
     start env (own_frame env ''StartConsumer'' 87 # stk) ctx SpanKindConsumer params w"

definition StartProducer ::
  "('ctx, 'ps, 'err) env \<Rightarrow> frame list \<Rightarrow> 'ctx \<Rightarrow> string list \<Rightarrow> ('ctx, 'ps, 'err) log
     \<Rightarrow> panic + (('ctx \<times> 'ps Span option) \<times> ('ctx, 'ps, 'err) log)" where
  "StartProducer env stk ctx params w =
     start env (own_frame env ''StartProducer'' 93 # stk) ctx SpanKindProducer params w"

definition StartServer ::
  "('ctx, 'ps, 'err) env \<Rightarrow> frame list \<Rightarrow> 'ctx \<Rightarrow> string list \<Rightarrow> ('ctx, 'ps, 'err) log
     \<Rightarrow> panic + (('ctx \<times> 'ps Span option) \<times> ('ctx, 'ps, 'err) log)" where
  "StartServer env stk ctx params w =
     start env (own_frame env ''StartServer'' 99 # stk) ctx SpanKindServer params w"

section \<open>The propagation carrier\<close>

text \<open>
  \<^verbatim>\<open>type carrier map[string]string\<close>
  A Go map is \<open>None\<close> when nil, else its entries, one per key, in the order in which this
  run's \<open>range\<close> meets them; Go leaves that order open, and so does a statement about
  every list of entries.
\<close>

type_synonym carrier = "(string \<times> string) list option"

text \<open>\<open>m[key]\<close> as an expression: the zero value for a missing key, and on a nil map.\<close>

definition carrier_Get :: "carrier \<Rightarrow> string \<Rightarrow> string" where
  "carrier_Get m key =
     (case m of
        None \<Rightarrow> []
      | Some kvs \<Rightarrow> (case map_of kvs key of None \<Rightarrow> [] | Some v \<Rightarrow> v))"

text \<open>\<open>m[key] = value\<close> on an allocated map: overwrite the key's entry, or add one.\<close>

fun assign :: "(string \<times> string) list \<Rightarrow> string \<Rightarrow> string \<Rightarrow> (string \<times> string) list" where
  "assign [] key v = [(key, v)]"
| "assign ((k, u) # kvs) key v = (if k = key then (k, v) # kvs else (k, u) # assign kvs key v)"

text \<open>The map is shared with the caller, so the updated map is returned. Assigning to an
  entry of a nil map panics.\<close>

definition carrier_Set :: "carrier \<Rightarrow> string \<Rightarrow> string \<Rightarrow> panic + carrier" where
  "carrier_Set m key v =
     (case m of
        None \<Rightarrow> Inl NilMapAssignment
      | Some kvs \<Rightarrow> Inr (Some (assign kvs key v)))"

text \<open>
  \<^verbatim>\<open>
  keys := make([]string, 0, len(m))
  for key := range m { keys = append(keys, key) }
  return keys
  \<close>
\<close>

definition range_keys :: "carrier \<Rightarrow> string list" where
  "range_keys m = (case m of None \<Rightarrow> [] | Some kvs \<Rightarrow> map fst kvs)"

fun Keys_loop :: "string list \<Rightarrow> string list \<Rightarrow> string list" where
  "Keys_loop [] keys = keys"
| "Keys_loop (key # rest) keys = Keys_loop rest (keys @ [key])"

definition carrier_Keys :: "carrier \<Rightarrow> string list" where
  "carrier_Keys m = Keys_loop (range_keys m) []"

section \<open>Export and Import\<close>

text \<open>The propagator's \<open>Inject\<close>, writing its headers through the carrier's \<open>Set\<close>.\<close>

fun inject_through :: "(string \<times> string) list \<Rightarrow> carrier \<Rightarrow> panic + carrier" where
  "inject_through [] m = Inr m"
| "inject_through ((k, v) # sets) m =
     (case carrier_Set m k v of
        Inl e \<Rightarrow> Inl e
      | Inr m' \<Rightarrow> inject_through sets m')"

text \<open>
  \<^verbatim>\<open>
  index := make(map[string]string)
  otel.GetTextMapPropagator().Inject(ctx, carrier(index))
  return index
  \<close>
\<close>

definition Export :: "('ctx, 'ps, 'err) env \<Rightarrow> 'ctx \<Rightarrow> panic + carrier" where
  "Export env ctx = inject_through (propagator_Inject env ctx) (Some [])"

text \<open>\<^verbatim>\<open>return otel.GetTextMapPropagator().Extract(ctx, carrier(index))\<close>\<close>

definition Import :: "('ctx, 'ps, 'err) env \<Rightarrow> 'ctx \<Rightarrow> carrier \<Rightarrow> 'ctx" where
  "Import env ctx index = propagator_Extract env ctx (carrier_Get index) (carrier_Keys index)"

section \<open>Specification-level notions\<close>

text \<open>
  The definitions of this section are not code of the package. They restate the
  specification in its own words, or name what it speaks of, so that the code above can
  be compared with it.

  The function name the inspector reports: "the last slash-delimited segment of the
  function's fully-qualified name", that is, what follows the last slash.
\<close>

definition spec_last_segment :: "string \<Rightarrow> string" where
  "spec_last_segment name = rev (takeWhile (\<lambda>c. c \<noteq> CHR ''/'') (rev name))"


text \<open>The sentinel, and the call-site information of a frame.\<close>

definition spec_unknown_site :: callerInfo where
  "spec_unknown_site = \<lparr>File = ''unknown'', Line = 0, Func = ''unknown''\<rparr>"

definition spec_frame_site :: "frame \<Rightarrow> callerInfo" where
  "spec_frame_site fr =
     \<lparr>File = fr_file fr, Line = fr_line fr, Func = spec_last_segment (fr_func fr)\<rparr>"

text \<open>
  The call site of a Starter whose callers are \<open>stk\<close>: the innermost of them, or the
  sentinel when there is none.
\<close>

definition spec_callsite :: "frame list \<Rightarrow> callerInfo" where
  "spec_callsite stk = (case stk of [] \<Rightarrow> spec_unknown_site | u # _ \<Rightarrow> spec_frame_site u)"

text \<open>
  The span name: the function name, an opening parenthesis, the quoted parameters in
  their order, each after the first preceded by a comma and a space, and a closing
  parenthesis.
\<close>

definition spec_joined :: "string list \<Rightarrow> string" where
  "spec_joined xs =
     (case xs of [] \<Rightarrow> [] | x # ys \<Rightarrow> x @ concat (map (\<lambda>y. '', '' @ y) ys))"

definition spec_span_name :: "string \<Rightarrow> (string \<Rightarrow> string) \<Rightarrow> string list \<Rightarrow> string" where
  "spec_span_name f q P = f @ ''('' @ spec_joined (map q P) @ '')''"

text \<open>
  The starter algorithm, from a call site on: build the name, ask the provider to start a
  span of the given kind, attach the one attribute \<open>file\<close>, return the derived context
  and a live handle on the new span.
\<close>

definition spec_starter ::
  "('ctx, 'ps, 'err) env \<Rightarrow> callerInfo \<Rightarrow> 'ctx \<Rightarrow> SpanKind \<Rightarrow> string list \<Rightarrow> ('ctx, 'ps, 'err) log
     \<Rightarrow> panic + (('ctx \<times> 'ps Span option) \<times> ('ctx, 'ps, 'err) log)" where
  "spec_starter env site ctx kind P w =
     (let name = spec_span_name (Func site) (Sprintf_q env) P;
          started = provider_Start env w ctx name kind
      in Inr ((fst started, Some \<lparr>noop = False, span = Some (snd started)\<rparr>),
              w @ [Tracer_Start ctx name kind,
                   Otel_SetAttributes (snd started)
                     [(''file'', File site @ '':'' @ Sprintf_d (Line site))]]))"

text \<open>The Starter of each interaction role.\<close>

definition starter_of ::
  "SpanKind \<Rightarrow> ('ctx, 'ps, 'err) env \<Rightarrow> frame list \<Rightarrow> 'ctx \<Rightarrow> string list
     \<Rightarrow> ('ctx, 'ps, 'err) log
     \<Rightarrow> panic + (('ctx \<times> 'ps Span option) \<times> ('ctx, 'ps, 'err) log)" where
  "starter_of kind =
     (case kind of
        SpanKindInternal \<Rightarrow> StartInternal
      | SpanKindServer \<Rightarrow> StartServer
      | SpanKindClient \<Rightarrow> StartClient
      | SpanKindProducer \<Rightarrow> StartProducer
      | SpanKindConsumer \<Rightarrow> StartConsumer)"

text \<open>
  A line number as text: the integer that a decimal numeral denotes. A numeral is an
  optional minus sign and digits, with no leading zero and no negative zero; any other
  text denotes nothing.
\<close>

definition spec_digit_value :: "char \<Rightarrow> nat option" where
  "spec_digit_value c =
     (let r = (of_char c :: nat) in if 48 \<le> r \<and> r \<le> 57 then Some (r - 48) else None)"

fun spec_read_digits :: "string \<Rightarrow> nat \<Rightarrow> nat option" where
  "spec_read_digits [] acc = Some acc"
| "spec_read_digits (c # cs) acc =
     (case spec_digit_value c of
        None \<Rightarrow> None
      | Some d \<Rightarrow> spec_read_digits cs (10 * acc + d))"

definition spec_read_nat :: "string \<Rightarrow> nat option" where
  "spec_read_nat s =
     (if s = [] then None
      else if hd s = CHR ''0'' \<and> 1 < length s then None
      else spec_read_digits s 0)"

definition spec_read_int :: "string \<Rightarrow> int option" where
  "spec_read_int s =
     (if s = [] then None
      else if hd s = CHR ''-'' then
        (case spec_read_nat (tl s) of
           None \<Rightarrow> None
         | Some n \<Rightarrow> if n = 0 then None else Some (- int n))
      else map_option int (spec_read_nat s))"

text \<open>The mapping that a carrier stands for.\<close>

definition carrier_mapping :: "carrier \<Rightarrow> (string \<rightharpoonup> string)" where
  "carrier_mapping m = (case m of None \<Rightarrow> Map.empty | Some kvs \<Rightarrow> map_of kvs)"

text \<open>
  The headers that a sequence of \<open>Set\<close> calls leaves behind, a later call for a key
  replacing an earlier one, and what a faithful carrier then answers for a key.
\<close>

definition headers_written :: "(string \<times> string) list \<Rightarrow> (string \<rightharpoonup> string)" where
  "headers_written sets = map_of (rev sets)"

definition header_value :: "(string \<times> string) list \<Rightarrow> string \<Rightarrow> string" where
  "header_value sets k = (case headers_written sets k of None \<Rightarrow> [] | Some v \<Rightarrow> v)"

text \<open>
  What the propagator may guarantee, \<open>ident\<close> being the observable trace identity of a
  context:
  \<^item> the round trip: extracting from a carrier that answers with the headers injected for
    \<open>ctx1\<close>, and lists their keys once each in any order, yields the identity of \<open>ctx1\<close>;
  \<^item> it injects nothing for a context without trace identity;
  \<^item> it returns the base context unchanged when the carrier has no key and answers
    every \<open>Get\<close> with the empty string.
\<close>

definition roundtrip_guarantee ::
  "('ctx, 'ps, 'err) env \<Rightarrow> ('ctx \<Rightarrow> 'tid option) \<Rightarrow> 'ctx \<Rightarrow> 'ctx \<Rightarrow> bool" where
  "roundtrip_guarantee env ident ctx1 ctx2 =
     (\<forall>keys. distinct keys \<and> set keys = dom (headers_written (propagator_Inject env ctx1)) \<longrightarrow>
        ident (propagator_Extract env ctx2 (header_value (propagator_Inject env ctx1)) keys)
          = ident ctx1)"

definition silent_without_identity ::
  "('ctx, 'ps, 'err) env \<Rightarrow> ('ctx \<Rightarrow> 'tid option) \<Rightarrow> bool" where
  "silent_without_identity env ident = (\<forall>c. ident c = None \<longrightarrow> propagator_Inject env c = [])"

definition extract_nothing_from_empty :: "('ctx, 'ps, 'err) env \<Rightarrow> bool" where
  "extract_nothing_from_empty env = (\<forall>c. propagator_Extract env c (\<lambda>k. []) [] = c)"

section \<open>A sample provider and a sample stack\<close>

text \<open>
  Concrete inputs on which the model is evaluated below. A sample context is the trace
  identity it carries, if any; a sample provider span is a string. The sample propagator
  writes the identity under the one header \<open>traceparent\<close> and reads it back from there.
  The sample texts are ASCII, so the sample's answer for other texts is never asked for.
\<close>

definition sample_env :: "(string option, string, string) env" where
  "sample_env =
     \<lparr>import_path = ''example.com/otelwrap'',
      source_file = ''/go/src/otelwrap/otelwrap.go'',
      quote_non_ascii = (\<lambda>s. s),
      provider_Start = (\<lambda>w ctx name kind. (Some name, name)),
      trace_SpanFromContext = (\<lambda>ctx. case ctx of None \<Rightarrow> ''provider-noop'' | Some t \<Rightarrow> t),
      propagator_Inject = (\<lambda>ctx. case ctx of None \<Rightarrow> [] | Some t \<Rightarrow> [(''traceparent'', t)]),
      propagator_Extract =
        (\<lambda>ctx get keys. if ''traceparent'' \<in> set keys then Some (get ''traceparent'') else ctx)\<rparr>"

text \<open>
  A second sample: a propagator that carries baggage next to the trace identity. A
  context is the trace identity, if any, and the baggage text. \<open>Inject\<close> writes the header
  \<open>traceparent\<close> when there is an identity and the header \<open>baggage\<close> when there is
  baggage; \<open>Extract\<close> takes identity and baggage from the carrier when it lists their
  headers, and stamps the context with a new identity when no \<open>traceparent\<close> arrives.
\<close>

definition baggage_env :: "(string option \<times> string, string, string) env" where
  "baggage_env =
     \<lparr>import_path = ''example.com/otelwrap'',
      source_file = ''/go/src/otelwrap/otelwrap.go'',
      quote_non_ascii = (\<lambda>s. s),
      provider_Start = (\<lambda>w ctx name kind. ((Some name, snd ctx), name)),
      trace_SpanFromContext =
        (\<lambda>ctx. case fst ctx of None \<Rightarrow> ''provider-noop'' | Some t \<Rightarrow> t),
      propagator_Inject =
        (\<lambda>ctx. (case fst ctx of None \<Rightarrow> [] | Some t \<Rightarrow> [(''traceparent'', t)])
               @ (if snd ctx = [] then [] else [(''baggage'', snd ctx)])),
      propagator_Extract =
        (\<lambda>ctx get keys.
           (if ''traceparent'' \<in> set keys then Some (get ''traceparent'')
            else Some ''new-root'',
            if ''baggage'' \<in> set keys then get ''baggage'' else snd ctx))\<rparr>"

definition sample_identity :: "string option \<Rightarrow> string option" where
  "sample_identity ctx = ctx"

definition sample_stack :: "frame list" where
  "sample_stack =
     [\<lparr>fr_func = ''example.com/app/jobs.DoWork'', fr_file = ''/go/src/app/jobs/work.go'',
       fr_line = 42\<rparr>,
      \<lparr>fr_func = ''main.main'', fr_file = ''/go/src/app/main.go'', fr_line = 7\<rparr>]"

section \<open>Span handles: what the code guarantees\<close>

lemma apply_span_op_noop:
  "noop h \<Longrightarrow> apply_span_op (Some h) c w = Inr w"
  by (cases c) (simp_all add: AddEvent_def RecordError_def End_def)

text \<open>
  Claim C3. On a handle whose no-op flag is set, every sequence of AddEvent, RecordError
  and End calls runs to its end without a panic and leaves the log of provider calls
  exactly as it found it; so does each single call.
\<close>

theorem noop_handle_calls_are_inert:
  assumes "noop h"
  shows "run_span_ops (Some h) cs w = Inr w
       \<and> AddEvent (Some h) name w = Inr w
       \<and> RecordError (Some h) err w = Inr w
       \<and> End (Some h) w = Inr w"
proof -
  have "run_span_ops (Some h) cs w = Inr w"
  proof (induction cs)
    case Nil
    show ?case by simp
  next
    case (Cons c cs)
    then show ?case using assms by (simp add: apply_span_op_noop)
  qed
  with assms show ?thesis
    by (simp add: AddEvent_def RecordError_def End_def)
qed

text \<open>
  The same on the package's own \<open>noopSpan\<close>: an event, an error and two Ends, after which
  a log that held one earlier provider call still holds exactly that call.
\<close>

theorem noop_handle_calls_are_inert_witness:
  "noop \<lparr>noop = True, span = (None :: string option)\<rparr>
 \<and> run_span_ops noopSpan [Op_AddEvent ''began'', Op_RecordError ''boom'', Op_End, Op_End]
       ([Otel_End ''s''] :: (string option, string, string) log) = Inr [Otel_End ''s'']
 \<and> End noopSpan ([] :: (string option, string, string) log) = Inr []"
proof -
  have h: "noop \<lparr>noop = True, span = (None :: string option)\<rparr>" by simp
  have a: "run_span_ops (Some \<lparr>noop = True, span = (None :: string option)\<rparr>)
       [Op_AddEvent ''began'', Op_RecordError ''boom'', Op_End, Op_End]
       ([Otel_End ''s''] :: (string option, string, string) log) = Inr [Otel_End ''s'']"
    by (rule noop_handle_calls_are_inert [OF h, THEN conjunct1])
  have b: "End (Some \<lparr>noop = True, span = (None :: string option)\<rparr>)
       ([] :: (string option, string, string) log) = Inr []"
    by (rule noop_handle_calls_are_inert
        [OF h, THEN conjunct2, THEN conjunct2, THEN conjunct2])
  from h a b show ?thesis
    unfolding noopSpan_def by (intro conjI)
qed

text \<open>
  On every context and for every provider, \<open>SpanFromContext\<close> builds a fresh handle
  around what the provider's \<open>trace.SpanFromContext\<close> returns. The handle is never nil;
  its no-op flag is never set, so no path returns \<open>noopSpan\<close>, and the three methods call
  through to the provider span.
\<close>

lemma SpanFromContext_every_context:
  "SpanFromContext env ctx = Some \<lparr>noop = False, span = Some (trace_SpanFromContext env ctx)\<rparr>
 \<and> SpanFromContext env ctx \<noteq> None
 \<and> SpanFromContext env ctx \<noteq> noopSpan
 \<and> AddEvent (SpanFromContext env ctx) name w
      = Inr (w @ [Otel_AddEvent (trace_SpanFromContext env ctx) name])
 \<and> RecordError (SpanFromContext env ctx) err w
      = Inr (w @ [Otel_RecordError (trace_SpanFromContext env ctx) err])
 \<and> End (SpanFromContext env ctx) w
      = Inr (w @ [Otel_End (trace_SpanFromContext env ctx)])"
  by (simp add: SpanFromContext_def newSpan_def noopSpan_def AddEvent_def RecordError_def End_def)

text \<open>
  Claim C1: for a context that carries no provider span, \<open>SpanFromContext\<close> returns the
  package's own no-op handle, and never nil. The comment above \<open>SpanFromContext\<close> says the
  same ("If there is no span in the context ... the no-op span is returned"), and the
  package declares \<open>noopSpan\<close> and guards each method for it. The code does not do it: on
  the sample context that carries no span the handle returned is not nil, but it is not
  \<open>noopSpan\<close> either; its flag is unset, it wraps the provider's placeholder span, and an
  AddEvent on it reaches the provider.
\<close>

theorem SpanFromContext_not_noopSpan_example:
  "SpanFromContext sample_env None = Some \<lparr>noop = False, span = Some ''provider-noop''\<rparr>
 \<and> SpanFromContext sample_env None \<noteq> None
 \<and> SpanFromContext sample_env None \<noteq> noopSpan
 \<and> AddEvent (SpanFromContext sample_env None) ''event''
      ([] :: (string option, string, string) log)
      = Inr [Otel_AddEvent ''provider-noop'' ''event'']"
  by (simp add: SpanFromContext_def newSpan_def noopSpan_def AddEvent_def sample_env_def)

section \<open>The call-site inspector: what the code guarantees\<close>

lemma strings_Split_nonempty: "strings_Split s sep \<noteq> []"
  by (induction s) (auto split: list.splits)

lemma strings_Split_no_sep: "sep \<notin> set s \<Longrightarrow> strings_Split s sep = [s]"
  by (induction s) auto

lemma strings_Split_with_sep: "sep \<in> set s \<Longrightarrow> \<exists>p q ps. strings_Split s sep = p # q # ps"
proof (induction s)
  case Nil
  then show ?case by simp
next
  case (Cons c cs)
  show ?case
  proof (cases "c = sep")
    case True
    then show ?thesis using strings_Split_nonempty [of cs sep]
      by (cases "strings_Split cs sep") auto
  next
    case False
    with Cons show ?thesis by auto
  qed
qed

lemma takeWhile_no_sep: "sep \<notin> set xs \<Longrightarrow> takeWhile (\<lambda>c. c \<noteq> sep) xs = xs"
  by (induction xs) auto

lemma rev_takeWhile_no_sep:
  "sep \<notin> set s \<Longrightarrow> rev (takeWhile (\<lambda>c. c \<noteq> sep) (rev s)) = s"
  by (simp add: takeWhile_no_sep)

text \<open>The last piece of a split is what follows the last separator.\<close>

lemma last_strings_Split:
  "last (strings_Split s sep) = rev (takeWhile (\<lambda>c. c \<noteq> sep) (rev s))"
proof (induction s)
  case Nil
  show ?case by simp
next
  case (Cons c cs)
  show ?case
  proof (cases "c = sep")
    case True
    then show ?thesis using Cons strings_Split_nonempty [of cs sep]
      by (simp add: takeWhile_tail)
  next
    case False
    show ?thesis
    proof (cases "sep \<in> set cs")
      case True
      then obtain p q ps where "strings_Split cs sep = p # q # ps"
        using strings_Split_with_sep by blast
      with Cons True False show ?thesis by auto
    next
      case False
      with \<open>c \<noteq> sep\<close> have ns: "sep \<notin> set (c # cs)" by simp
      show ?thesis
        unfolding strings_Split_no_sep [OF ns] rev_takeWhile_no_sep [OF ns] by simp
    qed
  qed
qed

text \<open>The index \<open>len(parts)-1\<close> is in range whenever the slice is not empty.\<close>

lemma at_index_last: "xs \<noteq> [] \<Longrightarrow> at_index xs (int (length xs) - 1) = Inr (last xs)"
  by (cases xs rule: rev_cases) (auto simp: at_index_def nth_append nat_diff_distrib)

lemma caller_Some:
  "runtime_Caller (own_frame env ''caller'' 124 # stk) n = Some fr \<Longrightarrow>
   caller env stk n = Inr (spec_frame_site fr)"
  by (simp add: caller_def Let_def at_index_last strings_Split_nonempty last_strings_Split
      spec_last_segment_def spec_frame_site_def)

lemma spec_last_segment_no_slash: "CHR ''/'' \<notin> set (spec_last_segment s)"
  unfolding spec_last_segment_def using set_takeWhileD by fastforce

lemma spec_last_segment_id: "CHR ''/'' \<notin> set s \<Longrightarrow> spec_last_segment s = s"
  unfolding spec_last_segment_def by (rule rev_takeWhile_no_sep)

lemma spec_last_segment_suffix:
  "\<exists>pre. s = pre @ spec_last_segment s \<and> (pre = [] \<or> last pre = CHR ''/'')"
proof -
  let ?P = "\<lambda>c. c \<noteq> CHR ''/''"
  have "rev s = takeWhile ?P (rev s) @ dropWhile ?P (rev s)" by simp
  then have s: "s = rev (dropWhile ?P (rev s)) @ spec_last_segment s"
    unfolding spec_last_segment_def by (metis rev_append rev_rev_ident)
  have "dropWhile ?P (rev s) = [] \<or> hd (dropWhile ?P (rev s)) = CHR ''/''"
    using hd_dropWhile [of ?P "rev s"] by auto
  then have "rev (dropWhile ?P (rev s)) = [] \<or> last (rev (dropWhile ?P (rev s))) = CHR ''/''"
    by (auto simp: last_rev)
  with s show ?thesis by blast
qed

text \<open>
  Claim C6. When \<open>runtime.Caller\<close> reports that there is no frame at the requested depth,
  \<open>caller\<close> returns, without a panic, the sentinel: file \<open>unknown\<close>, function \<open>unknown\<close>
  and line 0.
\<close>

theorem caller_unavailable_sentinel:
  "runtime_Caller (own_frame env ''caller'' 124 # stk) n = None \<Longrightarrow>
   caller env stk n = Inr \<lparr>File = ''unknown'', Line = 0, Func = ''unknown''\<rparr>"
  by (simp add: caller_def)

text \<open>Depth 3 when \<open>caller\<close> itself has no caller.\<close>

theorem caller_unavailable_sentinel_witness:
  "runtime_Caller (own_frame sample_env ''caller'' 124 # []) 3 = None
 \<and> caller sample_env [] 3 = Inr \<lparr>File = ''unknown'', Line = 0, Func = ''unknown''\<rparr>"
proof -
  have h: "runtime_Caller (own_frame sample_env ''caller'' 124 # []) 3 = None"
    by (simp add: runtime_Caller_def)
  from h caller_unavailable_sentinel [OF h] show ?thesis by (rule conjI)
qed

text \<open>
  Claim C7. When \<open>runtime.Caller\<close> finds the frame, \<open>caller\<close> returns, without a panic,
  the frame's file and line as they are, and as function name the last slash-delimited
  segment of the frame's function name: it contains no slash, the full name is this
  segment after either nothing or a prefix that ends in a slash, and a name without a
  slash is returned whole.
\<close>

theorem caller_reports_frame:
  "runtime_Caller (own_frame env ''caller'' 124 # stk) n = Some fr \<Longrightarrow>
     caller env stk n
       = Inr \<lparr>File = fr_file fr, Line = fr_line fr, Func = spec_last_segment (fr_func fr)\<rparr>
   \<and> CHR ''/'' \<notin> set (spec_last_segment (fr_func fr))
   \<and> (\<exists>pre. fr_func fr = pre @ spec_last_segment (fr_func fr)
          \<and> (pre = [] \<or> last pre = CHR ''/''))
   \<and> (CHR ''/'' \<notin> set (fr_func fr) \<longrightarrow> spec_last_segment (fr_func fr) = fr_func fr)"
  using spec_last_segment_suffix [of "fr_func fr"]
  by (simp add: caller_Some spec_frame_site_def spec_last_segment_no_slash spec_last_segment_id)

text \<open>Depth 2 on the sample stack is \<open>main.main\<close>, a name without a slash.\<close>

theorem caller_reports_frame_witness:
  "runtime_Caller (own_frame sample_env ''caller'' 124 # sample_stack) 2
     = Some \<lparr>fr_func = ''main.main'', fr_file = ''/go/src/app/main.go'', fr_line = 7\<rparr>
 \<and> CHR ''/'' \<notin> set ''main.main''
 \<and> caller sample_env sample_stack 2
     = Inr \<lparr>File = ''/go/src/app/main.go'', Line = 7, Func = ''main.main''\<rparr>"
proof -
  let ?fr = "\<lparr>fr_func = ''main.main'', fr_file = ''/go/src/app/main.go'', fr_line = 7\<rparr>"
  have h: "runtime_Caller (own_frame sample_env ''caller'' 124 # sample_stack) 2 = Some ?fr"
    by (simp add: runtime_Caller_def sample_stack_def numeral_2_eq_2)
  have ns: "CHR ''/'' \<notin> set (fr_func ?fr)" by simp
  from caller_reports_frame [OF h] ns have "caller sample_env sample_stack 2
     = Inr \<lparr>File = ''/go/src/app/main.go'', Line = 7, Func = ''main.main''\<rparr>"
    by simp
  with h ns show ?thesis by simp
qed

text \<open>Depth 1 on the sample stack: the import path before the last slash is dropped, the
  package qualifier after it stays.\<close>

lemma caller_example_with_path:
  "caller sample_env sample_stack 1
     = Inr \<lparr>File = ''/go/src/app/jobs/work.go'', Line = 42, Func = ''jobs.DoWork''\<rparr>"
  by code_simp

section \<open>The span starters: what the code guarantees\<close>

lemma quote_params_map: "quote_params env P acc = acc @ map (Sprintf_q env) P"
  by (induction P arbitrary: acc) auto

lemma strings_Join_joined: "strings_Join xs '', '' = spec_joined xs"
  by (induction xs "'', ''" rule: strings_Join.induct) (auto simp: spec_joined_def)

text \<open>
  Seen from \<open>caller\<close>, with its own frame at depth 0, the frame of \<open>start\<close> is at depth 1
  and the frame of the Starter at depth 2; depth 3 is the Starter's caller, if any.
\<close>

lemma caller_at_three:
  "caller env (s # f # stk) 3 = Inr (spec_callsite stk)"
proof (cases stk)
  case Nil
  then show ?thesis
    by (simp add: caller_def runtime_Caller_def spec_callsite_def spec_unknown_site_def)
next
  case (Cons u rest)
  then have "runtime_Caller (own_frame env ''caller'' 124 # s # f # stk) 3 = Some u"
    by (simp add: runtime_Caller_def numeral_3_eq_3)
  then show ?thesis using Cons
    by (simp add: caller_Some spec_callsite_def)
qed

lemma start_outcome:
  "start env (f # stk) ctx kind P w = spec_starter env (spec_callsite stk) ctx kind P w"
  by (simp add: start_def caller_at_three spec_starter_def Let_def quote_params_map
      strings_Join_joined spec_span_name_def newSpan_def split: prod.splits)

lemma starter_of_outcome:
  "starter_of kind env stk ctx P w = spec_starter env (spec_callsite stk) ctx kind P w"
  by (cases kind)
     (simp_all add: starter_of_def StartInternal_def StartClient_def StartServer_def
        StartProducer_def StartConsumer_def start_outcome)




text \<open>
  Claim C5. The five Starters run one algorithm, the specification's, and differ only in
  the span kind they pass to the provider: internal, client, server, producer and
  consumer. \<open>start\<close> asks the inspector for depth 3; counted from the inspector's own
  frame (depth 0), with \<open>start\<close> at depth 1 and the Starter at depth 2, that is the frame
  of the Starter's caller, whose location is the one reported.
\<close>

theorem starters_differ_only_in_kind:
  "StartInternal env stk ctx P w
     = spec_starter env (spec_callsite stk) ctx SpanKindInternal P w
 \<and> StartClient env stk ctx P w
     = spec_starter env (spec_callsite stk) ctx SpanKindClient P w
 \<and> StartServer env stk ctx P w
     = spec_starter env (spec_callsite stk) ctx SpanKindServer P w
 \<and> StartProducer env stk ctx P w
     = spec_starter env (spec_callsite stk) ctx SpanKindProducer P w
 \<and> StartConsumer env stk ctx P w
     = spec_starter env (spec_callsite stk) ctx SpanKindConsumer P w
 \<and> spec_callsite (u # rest) = spec_frame_site u
 \<and> caller env (own_frame env ''start'' 103 # f # u # rest) 3 = Inr (spec_frame_site u)
 \<and> caller env (own_frame env ''start'' 103 # f # u # rest) 2 = Inr (spec_frame_site f)
 \<and> caller env (own_frame env ''start'' 103 # f # u # rest) 1
       = Inr (spec_frame_site (own_frame env ''start'' 103))
 \<and> caller env (own_frame env ''start'' 103 # f # u # rest) 0
       = Inr (spec_frame_site (own_frame env ''caller'' 124))"
  by (simp add: StartInternal_def StartClient_def StartServer_def StartProducer_def
      StartConsumer_def start_outcome caller_at_three spec_callsite_def caller_Some
      runtime_Caller_def numeral_2_eq_2)

text \<open>
  The text that \<^verbatim>\<open>%d\<close> produces is the decimal numeral of the integer: read back, it
  denotes that integer.
\<close>

lemma of_char_digit: "d < 10 \<Longrightarrow> (of_char (digit d) :: nat) = 48 + d"
  by (simp add: digit_def)

lemma spec_digit_value_digit: "d < 10 \<Longrightarrow> spec_digit_value (digit d) = Some d"
  by (simp add: spec_digit_value_def of_char_digit)

lemma spec_read_digits_append:
  "spec_read_digits (xs @ ys) acc
     = (case spec_read_digits xs acc of None \<Rightarrow> None | Some a \<Rightarrow> spec_read_digits ys a)"
  by (induction xs arbitrary: acc) (auto split: option.splits)

lemma spec_read_digits_decimal: "spec_read_digits (decimal n) 0 = Some n"
proof (induction n rule: decimal.induct)
  case (1 n)
  show ?case
  proof (cases "n < 10")
    case True
    then show ?thesis
      by (subst decimal.simps) (simp add: spec_digit_value_digit)
  next
    case False
    with 1 have "spec_read_digits (decimal (n div 10)) 0 = Some (n div 10)" by simp
    with False show ?thesis
      by (subst decimal.simps) (simp add: spec_read_digits_append spec_digit_value_digit)
  qed
qed

lemma decimal_small: "n < 10 \<Longrightarrow> decimal n = [digit n]"
  by (subst decimal.simps) simp

lemma decimal_large: "\<not> n < 10 \<Longrightarrow> decimal n = decimal (n div 10) @ [digit (n mod 10)]"
  by (subst decimal.simps) simp

lemma decimal_nonempty: "decimal n \<noteq> []"
  by (cases "n < 10") (simp_all add: decimal_small decimal_large)

lemma hd_decimal: "\<exists>d<10. hd (decimal n) = digit d \<and> (d = 0 \<longrightarrow> n = 0)"
proof (induction n rule: decimal.induct)
  case (1 n)
  show ?case
  proof (cases "n < 10")
    case True
    then show ?thesis by (auto simp: decimal_small)
  next
    case False
    with 1 obtain d where d: "d < 10" "hd (decimal (n div 10)) = digit d"
      "d = 0 \<longrightarrow> n div 10 = 0"
      by blast
    have "decimal n = decimal (n div 10) @ [digit (n mod 10)]"
      using False by (rule decimal_large)
    then have "hd (decimal n) = digit d"
      using d(2) by (simp add: decimal_nonempty)
    moreover from False d(3) have "d \<noteq> 0" by auto
    ultimately show ?thesis using d(1) by blast
  qed
qed

lemma digit_eq_zero: "d < 10 \<Longrightarrow> digit d = CHR ''0'' \<Longrightarrow> d = 0"
  using of_char_digit [of d] by simp

lemma digit_not_minus: "d < 10 \<Longrightarrow> digit d \<noteq> CHR ''-''"
  using of_char_digit [of d] by auto

lemma spec_read_nat_decimal: "spec_read_nat (decimal n) = Some n"
proof -
  obtain d where d: "d < 10" "hd (decimal n) = digit d" "d = 0 \<longrightarrow> n = 0"
    using hd_decimal by blast
  have "hd (decimal n) = CHR ''0'' \<Longrightarrow> length (decimal n) = 1"
    using d digit_eq_zero [of d] by (auto simp: decimal_small)
  then show ?thesis
    by (auto simp: spec_read_nat_def decimal_nonempty spec_read_digits_decimal)
qed

lemma spec_read_int_Sprintf_d: "spec_read_int (Sprintf_d i) = Some i"
proof (cases "i < 0")
  case True
  then show ?thesis
    by (simp add: spec_read_int_def Sprintf_d_def spec_read_nat_decimal)
next
  case False
  obtain d where "d < 10" "hd (decimal (nat i)) = digit d"
    using hd_decimal by blast
  then have "hd (decimal (nat i)) \<noteq> CHR ''-''"
    using digit_not_minus by simp
  with False show ?thesis
    by (simp add: spec_read_int_def Sprintf_d_def spec_read_nat_decimal decimal_nonempty)
qed

text \<open>
  Claim C8. Whatever the role, the Starter makes exactly two calls on the provider: it
  starts the span, and on the span that the provider returned for this start it sets one
  attribute, whose key is \<open>file\<close> and whose value is the file of the Starter's caller, a
  colon, and the decimal numeral of the caller's line. The handle returned wraps that
  same span.
\<close>

theorem starter_file_attribute:
  "(\<exists>digits. spec_read_int digits = Some (Line (spec_callsite stk))
      \<and> starter_of kind env stk ctx P w
          = (let name = spec_span_name (Func (spec_callsite stk)) (Sprintf_q env) P;
                 started = provider_Start env w ctx name kind
             in Inr ((fst started, newSpan (snd started)),
                     w @ [Tracer_Start ctx name kind,
                          Otel_SetAttributes (snd started)
                            [(''file'', File (spec_callsite stk) @ '':'' @ digits)]])))
 \<and> starter_of SpanKindInternal = StartInternal
 \<and> starter_of SpanKindClient = StartClient
 \<and> starter_of SpanKindServer = StartServer
 \<and> starter_of SpanKindProducer = StartProducer
 \<and> starter_of SpanKindConsumer = StartConsumer
 \<and> File (spec_callsite (u # rest)) = fr_file u
 \<and> Line (spec_callsite (u # rest)) = fr_line u
 \<and> spec_read_int ''42'' = Some 42
 \<and> spec_read_int ''042'' = None
 \<and> spec_read_int [] = None"
proof -
  have "spec_read_int (Sprintf_d (Line (spec_callsite stk))) = Some (Line (spec_callsite stk))
      \<and> starter_of kind env stk ctx P w
          = (let name = spec_span_name (Func (spec_callsite stk)) (Sprintf_q env) P;
                 started = provider_Start env w ctx name kind
             in Inr ((fst started, newSpan (snd started)),
                     w @ [Tracer_Start ctx name kind,
                          Otel_SetAttributes (snd started)
                            [(''file'', File (spec_callsite stk) @ '':''
                                         @ Sprintf_d (Line (spec_callsite stk)))]]))"
    by (simp add: spec_read_int_Sprintf_d starter_of_outcome spec_starter_def Let_def
        newSpan_def)
  then have "\<exists>digits. spec_read_int digits = Some (Line (spec_callsite stk))
      \<and> starter_of kind env stk ctx P w
          = (let name = spec_span_name (Func (spec_callsite stk)) (Sprintf_q env) P;
                 started = provider_Start env w ctx name kind
             in Inr ((fst started, newSpan (snd started)),
                     w @ [Tracer_Start ctx name kind,
                          Otel_SetAttributes (snd started)
                            [(''file'', File (spec_callsite stk) @ '':'' @ digits)]]))"
    by (rule exI)
  moreover have "spec_read_int ''42'' = Some 42" "spec_read_int ''042'' = None"
    "spec_read_int [] = None"
    by (simp_all add: spec_read_int_def spec_read_nat_def spec_digit_value_def)
  ultimately show ?thesis
    by (simp add: starter_of_def spec_callsite_def spec_frame_site_def)
qed

section \<open>The carrier: what the code guarantees\<close>

lemma Keys_loop_append: "Keys_loop xs acc = acc @ xs"
  by (induction xs arbitrary: acc) auto

lemma carrier_Keys_range: "carrier_Keys m = range_keys m"
  by (simp add: carrier_Keys_def Keys_loop_append)

lemma set_range_keys: "set (range_keys m) = dom (carrier_mapping m)"
  by (cases m) (simp_all add: range_keys_def carrier_mapping_def dom_map_of_conv_image_fst)

lemma map_of_assign: "map_of (assign kvs k v) = (map_of kvs)(k \<mapsto> v)"
  by (induction kvs k v rule: assign.induct) auto

lemma keys_assign: "fst ` set (assign kvs k v) = insert k (fst ` set kvs)"
  by (induction kvs k v rule: assign.induct) auto

lemma distinct_assign: "distinct (map fst kvs) \<Longrightarrow> distinct (map fst (assign kvs k v))"
  by (induction kvs k v rule: assign.induct) (auto simp: keys_assign)

lemma carrier_Get_mapping:
  "carrier_Get m k = (case carrier_mapping m k of None \<Rightarrow> [] | Some v \<Rightarrow> v)"
  by (cases m) (simp_all add: carrier_Get_def carrier_mapping_def)

lemma carrier_Set_mapping:
  "carrier_Set m k v = Inr m' \<Longrightarrow> carrier_mapping m' = (carrier_mapping m)(k \<mapsto> v)"
  by (cases m) (auto simp: carrier_Set_def carrier_mapping_def map_of_assign)

text \<open>
  Claim C9. For every carrier, nil or allocated, the keys that \<open>Keys\<close> returns are, as a
  set, exactly the keys of the mapping. Two carriers that hold the same mapping in
  different iteration orders give the same key set. When the entries have one key each,
  as the entries of a Go map do, \<open>Keys\<close> lists every key once.
\<close>

theorem carrier_Keys_exact:
  "set (carrier_Keys m) = dom (carrier_mapping m)
 \<and> (carrier_mapping m1 = carrier_mapping m2 \<longrightarrow> set (carrier_Keys m1) = set (carrier_Keys m2))
 \<and> (distinct (range_keys m) \<longrightarrow>
      distinct (carrier_Keys m) \<and> length (carrier_Keys m) = card (dom (carrier_mapping m)))"
  by (auto simp: carrier_Keys_range set_range_keys distinct_card [symmetric])

text \<open>The same two entries in the two possible orders.\<close>

theorem carrier_Keys_exact_witness:
  "carrier_mapping (Some [(''a'', ''1''), (''b'', ''2'')])
     = carrier_mapping (Some [(''b'', ''2''), (''a'', ''1'')])
 \<and> set (carrier_Keys (Some [(''a'', ''1''), (''b'', ''2'')]))
     = set (carrier_Keys (Some [(''b'', ''2''), (''a'', ''1'')]))
 \<and> distinct (range_keys (Some [(''a'', ''1''), (''b'', ''2'')]))
 \<and> distinct (carrier_Keys (Some [(''a'', ''1''), (''b'', ''2'')]))
 \<and> length (carrier_Keys (Some [(''a'', ''1''), (''b'', ''2'')]))
     = card (dom (carrier_mapping (Some [(''a'', ''1''), (''b'', ''2'')])))"
proof -
  let ?m1 = "Some [(''a'', ''1''), (''b'', ''2'')] :: carrier"
  let ?m2 = "Some [(''b'', ''2''), (''a'', ''1'')] :: carrier"
  have h1: "carrier_mapping ?m1 = carrier_mapping ?m2"
    by (rule ext) (simp add: carrier_mapping_def)
  have h2: "distinct (range_keys ?m1)"
    by (simp add: range_keys_def)
  note t = carrier_Keys_exact [of ?m1 ?m1 ?m2]
  from t h1 have a: "set (carrier_Keys ?m1) = set (carrier_Keys ?m2)" by blast
  from t h2 have b: "distinct (carrier_Keys ?m1)
      \<and> length (carrier_Keys ?m1) = card (dom (carrier_mapping ?m1))" by blast
  from h1 a h2 b show ?thesis by blast
qed

text \<open>
  Claim C10. For every carrier, key and value: once \<open>Set(k, v)\<close> has returned, \<open>Get(k)\<close>
  returns \<open>v\<close>, and after two \<open>Set\<close>s for the same key it returns the later value. \<open>Set\<close>
  returns on every allocated map; on a nil map it panics, as every assignment to an entry
  of a nil map does in Go. \<open>Get\<close> on a key that the mapping does not hold returns the
  empty string, on a nil map too, and \<open>Get\<close> never panics.
\<close>

theorem carrier_Get_after_Set:
  "(carrier_Set m k v = Inr m' \<longrightarrow> carrier_Get m' k = v)
 \<and> (carrier_Set m k v1 = Inr m1 \<and> carrier_Set m1 k v2 = Inr m2 \<longrightarrow> carrier_Get m2 k = v2)
 \<and> (\<exists>kvs'. carrier_Set (Some kvs) k v = Inr (Some kvs'))
 \<and> carrier_Set None k v = Inl NilMapAssignment
 \<and> (k \<notin> dom (carrier_mapping m) \<longrightarrow> carrier_Get m k = [])"
proof (intro conjI impI)
  assume "carrier_Set m k v = Inr m'"
  then show "carrier_Get m' k = v"
    by (simp add: carrier_Get_mapping carrier_Set_mapping)
next
  assume "carrier_Set m k v1 = Inr m1 \<and> carrier_Set m1 k v2 = Inr m2"
  then have "carrier_mapping m2 = (carrier_mapping m1)(k \<mapsto> v2)"
    by (simp add: carrier_Set_mapping)
  then show "carrier_Get m2 k = v2"
    by (simp add: carrier_Get_mapping)
next
  show "\<exists>kvs'. carrier_Set (Some kvs) k v = Inr (Some kvs')"
    by (simp add: carrier_Set_def)
next
  show "carrier_Set None k v = Inl NilMapAssignment"
    by (simp add: carrier_Set_def)
next
  assume "k \<notin> dom (carrier_mapping m)"
  then have "carrier_mapping m k = None" by (simp add: domIff)
  then show "carrier_Get m k = []"
    by (simp add: carrier_Get_mapping)
qed

text \<open>A map that holds another key: the key is absent, is set, and is set again.\<close>

theorem carrier_Get_after_Set_witness:
  "carrier_Set (Some [(''other'', ''x'')]) ''traceparent'' ''t1''
     = Inr (Some [(''other'', ''x''), (''traceparent'', ''t1'')])
 \<and> carrier_Get (Some [(''other'', ''x''), (''traceparent'', ''t1'')]) ''traceparent'' = ''t1''
 \<and> carrier_Set (Some [(''other'', ''x''), (''traceparent'', ''t1'')]) ''traceparent'' ''t2''
     = Inr (Some [(''other'', ''x''), (''traceparent'', ''t2'')])
 \<and> carrier_Get (Some [(''other'', ''x''), (''traceparent'', ''t2'')]) ''traceparent'' = ''t2''
 \<and> ''traceparent'' \<notin> dom (carrier_mapping (Some [(''other'', ''x'')]))
 \<and> carrier_Get (Some [(''other'', ''x'')]) ''traceparent'' = []"
proof -
  let ?m = "Some [(''other'', ''x'')] :: carrier"
  let ?m1 = "Some [(''other'', ''x''), (''traceparent'', ''t1'')] :: carrier"
  let ?m2 = "Some [(''other'', ''x''), (''traceparent'', ''t2'')] :: carrier"
  have h1: "carrier_Set ?m ''traceparent'' ''t1'' = Inr ?m1"
    by (simp add: carrier_Set_def)
  have h2: "carrier_Set ?m1 ''traceparent'' ''t2'' = Inr ?m2"
    by (simp add: carrier_Set_def)
  have h3: "''traceparent'' \<notin> dom (carrier_mapping ?m)"
    by (simp add: carrier_mapping_def)
  note t = carrier_Get_after_Set
    [of ?m "''traceparent''" "''t1''" ?m1 "''t1''" ?m1 "''t2''" ?m2]
  from t h1 have a: "carrier_Get ?m1 ''traceparent'' = ''t1''" by blast
  from t h1 h2 have b: "carrier_Get ?m2 ''traceparent'' = ''t2''" by blast
  from t h3 have c: "carrier_Get ?m ''traceparent'' = []" by blast
  from h1 a h2 b h3 c show ?thesis by blast
qed

section \<open>Export and Import: what the code guarantees\<close>

text \<open>
  Injecting into an allocated map never panics; the map then holds what it held, overlaid
  with the headers written, and still has one entry per key.
\<close>

lemma inject_through_allocated:
  "distinct (map fst kvs) \<Longrightarrow>
   \<exists>kvs'. inject_through sets (Some kvs) = Inr (Some kvs')
        \<and> map_of kvs' = map_of kvs ++ headers_written sets
        \<and> distinct (map fst kvs')"
proof (induction sets arbitrary: kvs)
  case Nil
  then show ?case by (simp add: headers_written_def)
next
  case (Cons kv sets)
  obtain k v where kv: "kv = (k, v)" by (cases kv)
  have "distinct (map fst (assign kvs k v))"
    using Cons.prems by (rule distinct_assign)
  from Cons.IH [OF this] obtain kvs' where
    "inject_through sets (Some (assign kvs k v)) = Inr (Some kvs')"
    "map_of kvs' = map_of (assign kvs k v) ++ headers_written sets"
    "distinct (map fst kvs')"
    by blast
  moreover have "map_of (assign kvs k v) ++ headers_written sets
      = map_of kvs ++ headers_written ((k, v) # sets)"
    by (simp add: map_of_assign headers_written_def map_add_def fun_eq_iff split: option.splits)
  ultimately show ?case
    by (simp add: kv carrier_Set_def)
qed

lemma Export_result:
  "\<exists>kvs. Export env ctx = Inr (Some kvs)
       \<and> map_of kvs = headers_written (propagator_Inject env ctx)
       \<and> distinct (map fst kvs)"
proof -
  have "distinct (map fst ([] :: (string \<times> string) list))" by simp
  from inject_through_allocated [OF this, of "propagator_Inject env ctx"]
  show ?thesis
    by (simp only: Export_def map_of.simps empty_map_add)
qed

text \<open>
  Claim C4, as the specification states it, fails in its second and third part, which
  it states for every propagator. With the propagator that carries baggage, a context
  without trace identity but with baggage exports a map that is not empty, and importing
  the empty map into that context yields a context with a trace identity; yet this
  propagator guarantees the round trip of the trace identity.
\<close>

theorem export_import_baggage_example:
  "fst ((None, ''user=1'') :: string option \<times> string) = None
 \<and> Export baggage_env (None, ''user=1'') = Inr (Some [(''baggage'', ''user=1'')])
 \<and> Export baggage_env (None, ''user=1'') \<noteq> Inr (Some [])
 \<and> Import baggage_env (None, ''user=1'') (Some []) = (Some ''new-root'', ''user=1'')
 \<and> Import baggage_env (None, ''user=1'') (Some []) \<noteq> (None, ''user=1'')
 \<and> roundtrip_guarantee baggage_env fst (Some ''00-abc-01'', ''user=1'') (None, [])"
proof -
  have export: "Export baggage_env (None, ''user=1'') = Inr (Some [(''baggage'', ''user=1'')])"
    by (simp add: Export_def baggage_env_def carrier_Set_def)
  have import: "Import baggage_env (None, ''user=1'') (Some []) = (Some ''new-root'', ''user=1'')"
    by (simp add: Import_def baggage_env_def carrier_Keys_def range_keys_def)
  have trip: "roundtrip_guarantee baggage_env fst (Some ''00-abc-01'', ''user=1'') (None, [])"
    by (simp add: roundtrip_guarantee_def baggage_env_def headers_written_def header_value_def)
  from export import trip show ?thesis by simp
qed

text \<open>
  Claim C4, amended. The propagator is the provider's, and each part holds to the extent
  of what the propagator guarantees.
  \<^item> If the propagator guarantees the round trip for \<open>ctx1\<close>, which carries the trace
    identity \<open>T\<close>, and \<open>ctx2\<close>, then \<open>Export\<close> on \<open>ctx1\<close> returns a map without a panic and
    \<open>Import\<close> of that map into \<open>ctx2\<close> yields a context of trace identity \<open>T\<close>.
  \<^item> \<open>Export\<close> never panics and returns an allocated map that holds exactly the headers
    the propagator wrote; it is empty exactly when the propagator wrote none. So
    \<open>Export\<close> on a context without trace identity yields the empty map if the propagator
    injects nothing for such a context.
  \<^item> \<open>Import\<close> with an empty map (or a nil one) returns what the propagator extracts from
    a carrier that lists no key and answers every \<open>Get\<close> with the empty string. So it
    returns the context it was given if the propagator extracts nothing from such a
    carrier.
\<close>

theorem export_import_roundtrip:
  "(ident ctx1 = Some T \<and> roundtrip_guarantee env ident ctx1 ctx2 \<longrightarrow>
      (\<exists>m. Export env ctx1 = Inr m \<and> ident (Import env ctx2 m) = Some T))
 \<and> (\<exists>kvs. Export env ctx = Inr (Some kvs)
        \<and> map_of kvs = headers_written (propagator_Inject env ctx)
        \<and> distinct (map fst kvs))
 \<and> (Export env ctx = Inr (Some []) \<longleftrightarrow> propagator_Inject env ctx = [])
 \<and> (ident ctx = None \<and> silent_without_identity env ident \<longrightarrow> Export env ctx = Inr (Some []))
 \<and> Import env ctx (Some []) = propagator_Extract env ctx (\<lambda>k. []) []
 \<and> Import env ctx None = propagator_Extract env ctx (\<lambda>k. []) []
 \<and> (extract_nothing_from_empty env \<longrightarrow>
      Import env ctx (Some []) = ctx \<and> Import env ctx None = ctx)"
proof -
  have trip: "\<exists>m. Export env ctx1 = Inr m \<and> ident (Import env ctx2 m) = Some T"
    if a: "ident ctx1 = Some T \<and> roundtrip_guarantee env ident ctx1 ctx2"
  proof -
    obtain kvs where "Export env ctx1 = Inr (Some kvs)
        \<and> map_of kvs = headers_written (propagator_Inject env ctx1)
        \<and> distinct (map fst kvs)"
      using Export_result [of env ctx1] ..
    note kvs = this [THEN conjunct1] this [THEN conjunct2, THEN conjunct1]
      this [THEN conjunct2, THEN conjunct2]
    have get: "carrier_Get (Some kvs) = header_value (propagator_Inject env ctx1)"
      by (rule ext) (simp add: carrier_Get_def header_value_def kvs(2))
    have keys: "distinct (carrier_Keys (Some kvs))"
      "set (carrier_Keys (Some kvs)) = dom (headers_written (propagator_Inject env ctx1))"
      using kvs(2,3)
      by (simp_all add: carrier_Keys_range range_keys_def dom_map_of_conv_image_fst [symmetric])
    from a keys have "ident (Import env ctx2 (Some kvs)) = ident ctx1"
      unfolding roundtrip_guarantee_def Import_def get by blast
    with a kvs(1) show ?thesis by simp
  qed
  have empty_iff: "Export env ctx = Inr (Some []) \<longleftrightarrow> propagator_Inject env ctx = []"
  proof
    assume e: "Export env ctx = Inr (Some [])"
    obtain kvs where "Export env ctx = Inr (Some kvs)
        \<and> map_of kvs = headers_written (propagator_Inject env ctx)
        \<and> distinct (map fst kvs)"
      using Export_result [of env ctx] ..
    note kvs = this [THEN conjunct1] this [THEN conjunct2, THEN conjunct1]
    from e kvs(1) have "kvs = []" by simp
    with kvs(2) have "headers_written (propagator_Inject env ctx) = Map.empty"
      by (simp only: map_of.simps)
    then have "dom (headers_written (propagator_Inject env ctx)) = {}"
      by (simp only: dom_empty)
    then have "fst ` set (propagator_Inject env ctx) = {}"
      by (simp add: headers_written_def dom_map_of_conv_image_fst)
    then show "propagator_Inject env ctx = []" by simp
  next
    assume "propagator_Inject env ctx = []"
    then show "Export env ctx = Inr (Some [])" by (simp add: Export_def)
  qed
  have silent: "Export env ctx = Inr (Some [])"
    if "ident ctx = None \<and> silent_without_identity env ident"
    using that by (simp add: silent_without_identity_def Export_def)
  have get_empty: "carrier_Get (Some []) = (\<lambda>k. [])" "carrier_Get None = (\<lambda>k. [])"
    by (rule ext, simp add: carrier_Get_def)+
  have import_empty: "Import env ctx (Some []) = propagator_Extract env ctx (\<lambda>k. []) []"
    "Import env ctx None = propagator_Extract env ctx (\<lambda>k. []) []"
    by (simp_all add: Import_def get_empty carrier_Keys_range range_keys_def)
  have unchanged: "Import env ctx (Some []) = ctx \<and> Import env ctx None = ctx"
    if "extract_nothing_from_empty env"
    using that by (simp add: import_empty extract_nothing_from_empty_def)
  have trip': "ident ctx1 = Some T \<and> roundtrip_guarantee env ident ctx1 ctx2 \<longrightarrow>
      (\<exists>m. Export env ctx1 = Inr m \<and> ident (Import env ctx2 m) = Some T)"
    by (rule impI) (rule trip)
  have silent': "ident ctx = None \<and> silent_without_identity env ident \<longrightarrow>
      Export env ctx = Inr (Some [])"
    by (rule impI) (rule silent)
  have unchanged': "extract_nothing_from_empty env \<longrightarrow>
      Import env ctx (Some []) = ctx \<and> Import env ctx None = ctx"
  proof (rule impI)
    assume "extract_nothing_from_empty env"
    then show "Import env ctx (Some []) = ctx \<and> Import env ctx None = ctx"
      by (rule unchanged)
  qed
  show ?thesis
    by (rule conjI [OF trip' conjI [OF Export_result conjI [OF empty_iff conjI [OF silent'
        conjI [OF import_empty(1) conjI [OF import_empty(2) unchanged']]]]]])
qed

text \<open>
  The sample propagator gives all three guarantees: a trace identity exported from one
  context arrives in another, and a context without one exports the empty map.
\<close>

theorem export_import_roundtrip_witness:
  "sample_identity (Some ''00-abc-01'') = Some ''00-abc-01''
 \<and> roundtrip_guarantee sample_env sample_identity (Some ''00-abc-01'') None
 \<and> (\<exists>m. Export sample_env (Some ''00-abc-01'') = Inr m
        \<and> sample_identity (Import sample_env None m) = Some ''00-abc-01'')
 \<and> sample_identity None = None
 \<and> silent_without_identity sample_env sample_identity
 \<and> propagator_Inject sample_env None = []
 \<and> Export sample_env None = Inr (Some [])
 \<and> extract_nothing_from_empty sample_env
 \<and> Import sample_env None (Some []) = None"
proof -
  have h1: "sample_identity (Some ''00-abc-01'') = Some ''00-abc-01''"
    by (simp add: sample_identity_def)
  have h2: "roundtrip_guarantee sample_env sample_identity (Some ''00-abc-01'') None"
    by (simp add: roundtrip_guarantee_def sample_env_def sample_identity_def
        headers_written_def header_value_def)
  have h3: "sample_identity None = None"
    by (simp add: sample_identity_def)
  have h4: "silent_without_identity sample_env sample_identity"
    by (simp add: silent_without_identity_def sample_env_def sample_identity_def
        split: option.splits)
  have h5: "extract_nothing_from_empty sample_env"
    by (simp add: extract_nothing_from_empty_def sample_env_def)
  have h6: "propagator_Inject sample_env None = []"
    by (simp add: sample_env_def)
  from export_import_roundtrip
    [of sample_identity "Some ''00-abc-01''" "''00-abc-01''" sample_env None None]
    h1 h2 h3 h4 h5 h6
  show ?thesis by blast
qed

end
